theory Spec2Isabelle
  imports Main
begin

section \<open>The todo backend's server wiring (backend/src/index.js)\<close>

text \<open>
  The module builds an Express application, registers one middleware and one route of
  its own (the request counter and \<^verbatim>\<open>/metrics\<close>), two library middlewares
  (\<^verbatim>\<open>express.json()\<close>, \<^verbatim>\<open>express.static\<close>) and five routes whose handlers live
  in other modules, starts listening once \<^verbatim>\<open>db.init()\<close> has resolved, and installs
  one shutdown listener for three signals.

  Express, prom-client and the Node runtime are libraries. Their documented behaviour
  is written out where the module relies on it (the layer stack and its matching, the
  promise combinators, \<^verbatim>\<open>process.exit\<close>); what a library computes from data the
  module never looks at (parsing a body, finding a file, rendering the registry,
  decoding a parameter) is a field of the environment record \<open>env\<close>, and so are the
  five route handlers, whose sources are not part of the module.
\<close>

subsection \<open>Strings\<close>

text \<open>\<^verbatim>\<open>String.prototype.startsWith\<close>: a case-sensitive comparison of the first characters.\<close>

definition startsWith :: "string \<Rightarrow> string \<Rightarrow> bool" where
  "startsWith s pre = (take (length pre) s = pre)"

text \<open>\<^verbatim>\<open>String.prototype.split\<close> on one separator character.\<close>

fun split :: "char \<Rightarrow> string \<Rightarrow> string list" where
  "split c [] = [[]]"
| "split c (x # xs) =
     (if x = c then [] # split c xs
      else (case split c xs of [] \<Rightarrow> [[x]] | y # ys \<Rightarrow> (x # y) # ys))"

text \<open>Lower case of the ASCII letters, for Express's case-insensitive comparisons.\<close>

definition toLowerCase :: "string \<Rightarrow> string" where
  "toLowerCase s =
     map (\<lambda>c. case map_of (zip ''ABCDEFGHIJKLMNOPQRSTUVWXYZ'' ''abcdefghijklmnopqrstuvwxyz'') c of
                 None \<Rightarrow> c | Some d \<Rightarrow> d) s"

subsection \<open>Requests, responses, errors\<close>

text \<open>
  A request as the module and the router see it: \<^verbatim>\<open>req.method\<close> (upper case, as
  Node's parser delivers it), \<^verbatim>\<open>req.path\<close> (the path of the URL, without the query
  string), \<^verbatim>\<open>req.params\<close> (filled by the route that matches) and the raw body.
\<close>

record request =
  req_method :: string
  path :: string
  params :: "(string \<times> string) list"
  body :: string

record response =
  statusCode :: nat
  headers :: "(string \<times> string) list"
  data :: string

text \<open>A JavaScript error value, by its message.\<close>

type_synonym error = string

subsection \<open>The request counter (prom-client)\<close>

text \<open>
  \<^verbatim>\<open>httpRequestCounter\<close> has the single label \<^verbatim>\<open>method\<close>; prom-client keeps one
  entry per label value that was incremented at least once. \<^verbatim>\<open>inc(labels)\<close> adds 1
  to the entry, creating it when it is missing. Counts are natural numbers here (the
  library stores JavaScript numbers, exact up to \<open>2 ^ 53\<close>).
\<close>

type_synonym counter = "string \<rightharpoonup> nat"

definition count_of :: "counter \<Rightarrow> string \<Rightarrow> nat" where
  "count_of c m = (case c m of None \<Rightarrow> 0 | Some n \<Rightarrow> n)"

definition inc :: "string \<Rightarrow> counter \<Rightarrow> counter" where
  "inc m c = c(m \<mapsto> count_of c m + 1)"

text \<open>\<^verbatim>\<open>register.contentType\<close> of a registry created with \<^verbatim>\<open>new client.Registry()\<close>.\<close>

definition register_contentType :: string where
  "register_contentType = ''text/plain; version=0.0.4; charset=utf-8''"

subsection \<open>The process state\<close>

text \<open>
  How the process ended: \<^verbatim>\<open>process.exit\<close> with a status code, or the default action
  of a signal nobody listens to.
\<close>

datatype signal = SIGINT | SIGTERM | SIGUSR2 | SIGHUP

datatype ending = Exited int | Killed signal

text \<open>
  Everything the module reads or writes during the life of the process: the counter,
  the store behind the persistence module (\<open>'db\<close>, touched by the route handlers only),
  the port the server listens on, what \<^verbatim>\<open>console.log\<close> and \<^verbatim>\<open>console.error\<close>
  were called with, whether and how the process ended, \<^verbatim>\<open>process.exitCode\<close>, whether
  the promise of \<^verbatim>\<open>db.init()\<close> has settled, and how often \<^verbatim>\<open>db.init\<close> and
  \<^verbatim>\<open>db.teardown\<close> were called.
\<close>

record 'db process =
  counter :: counter
  db :: 'db
  listening :: "nat option"
  stdout :: "string list"
  stderr :: "error list"
  ended :: "ending option"
  exitCode :: "int option"
  init_settled :: bool
  init_calls :: nat
  teardown_calls :: nat

text \<open>
  The libraries and the other modules of the repository, as the module uses them:
  \<^item> \<open>express_json\<close>: the body parser; \<open>Inr\<close> the parsed body it stores in
    \<^verbatim>\<open>req.body\<close> before \<^verbatim>\<open>next()\<close>, \<open>Inl\<close> the error it passes on
    (\<^verbatim>\<open>next(err)\<close>, a malformed body);
  \<^item> \<open>express_static\<close>: the response when a file under \<^verbatim>\<open>static/\<close> answers the
    request, \<open>None\<close> when the middleware calls \<^verbatim>\<open>next()\<close>;
  \<^item> \<open>route_handler\<close>: the five handlers required from \<^verbatim>\<open>./routes\<close>; each reads
    and writes the store and sends a response (\<open>Inr\<close>) or fails (\<open>Inl\<close>);
  \<^item> \<open>register_metrics\<close>: the text \<^verbatim>\<open>register.metrics()\<close> renders from the
    registered counter;
  \<^item> \<open>decodeURIComponent\<close>: applied by the router to a route parameter, \<open>None\<close> when
    it throws;
  \<^item> \<open>listen_error\<close>: what the operating system answers when the server asks for a
    port: \<open>None\<close> when the port is bound, the error (\<^verbatim>\<open>EADDRINUSE\<close> for a port
    in use) when it is not.
\<close>

datatype handler = getGreeting | getItems | addItem | updateItem | deleteItem | metricsHandler

record 'db env =
  express_json :: "request \<Rightarrow> error + string"
  express_static :: "request \<Rightarrow> response option"
  route_handler :: "handler \<Rightarrow> request \<Rightarrow> 'db \<Rightarrow> (error + response) \<times> 'db"
  register_metrics :: "counter \<Rightarrow> string"
  decodeURIComponent :: "string \<Rightarrow> string option"
  listen_error :: "nat \<Rightarrow> error option"

subsection \<open>The middleware and the handler the module defines\<close>

text \<open>
  Lines 21 to 28: \<^verbatim>\<open>if (req.path.startsWith('/api')) httpRequestCounter.inc({method: req.method})\<close>,
  then \<^verbatim>\<open>next()\<close> in every case (the caller goes on to the next layer).
\<close>

definition metricsMiddleware :: "request \<Rightarrow> 'db process \<Rightarrow> 'db process" where
  "metricsMiddleware req st =
     (if startsWith (path req) ''/api''
      then st\<lparr>counter := inc (req_method req) (counter st)\<rparr>
      else st)"

text \<open>
  Lines 30 to 33: \<^verbatim>\<open>res.set('Content-Type', register.contentType)\<close>, then
  \<^verbatim>\<open>res.end(await register.metrics())\<close>. The status stays at Node's default 200;
  Node sends no body in answer to a HEAD request.
\<close>

definition serveMetrics :: "'db env \<Rightarrow> request \<Rightarrow> 'db process \<Rightarrow> response" where
  "serveMetrics env req st =
     \<lparr>statusCode = 200,
      headers = [(''Content-Type'', register_contentType)],
      data = (if req_method req = ''HEAD'' then [] else register_metrics env (counter st))\<rparr>"

subsection \<open>The Express application: a stack of layers\<close>

text \<open>
  \<^verbatim>\<open>app.use(fn)\<close> appends a layer that every request visits; \<^verbatim>\<open>app.get(path, fn)\<close>
  and its siblings append a route for one method and one path pattern.
\<close>

datatype middleware = Metrics | Json | Static

datatype layer = Use middleware | Route string string handler

datatype stage = Ran middleware | Dispatched handler

text \<open>
  How the walk through the stack ends: a layer sent a response, an error reached
  Express's final handler (which answers with the error's status), or no layer
  answered (the final handler answers: 404, or the automatic reply to OPTIONS).
\<close>

datatype outcome = Sent response | Failed error | Unanswered

definition app_use :: "middleware \<Rightarrow> layer list \<Rightarrow> layer list" where
  "app_use mw stack = stack @ [Use mw]"

definition app_get :: "string \<Rightarrow> handler \<Rightarrow> layer list \<Rightarrow> layer list" where
  "app_get p h stack = stack @ [Route ''get'' p h]"

definition app_post :: "string \<Rightarrow> handler \<Rightarrow> layer list \<Rightarrow> layer list" where
  "app_post p h stack = stack @ [Route ''post'' p h]"

definition app_put :: "string \<Rightarrow> handler \<Rightarrow> layer list \<Rightarrow> layer list" where
  "app_put p h stack = stack @ [Route ''put'' p h]"

definition app_delete :: "string \<Rightarrow> handler \<Rightarrow> layer list \<Rightarrow> layer list" where
  "app_delete p h stack = stack @ [Route ''delete'' p h]"

text \<open>Lines 21 to 43, in the order of the calls.\<close>

definition app :: "layer list" where
  "app = foldl (\<lambda>stack register. register stack) []
     [app_use Metrics,
      app_get ''/metrics'' metricsHandler,
      app_use Json,
      app_use Static,
      app_get ''/api/greeting'' getGreeting,
      app_get ''/api/items'' getItems,
      app_post ''/api/items'' addItem,
      app_put ''/api/items/:id'' updateItem,
      app_delete ''/api/items/:id'' deleteItem]"

text \<open>
  Matching a route's pattern against \<^verbatim>\<open>req.path\<close>, with Express's defaults: letters
  compare without case, one trailing slash is optional, a segment \<^verbatim>\<open>:name\<close> takes
  one non-empty segment of the path.
\<close>

fun match_segments :: "string list \<Rightarrow> string list \<Rightarrow> (string \<times> string) list option" where
  "match_segments [] [] = Some []"
| "match_segments (s # ss) (t # ts) =
     (if startsWith s '':''
      then (if t = [] then None else map_option ((#) (tl s, t)) (match_segments ss ts))
      else (if toLowerCase s = toLowerCase t then match_segments ss ts else None))"
| "match_segments _ _ = None"

definition strip_slash :: "string \<Rightarrow> string" where
  "strip_slash p = (if p \<noteq> [] \<and> last p = CHR ''/'' then butlast p else p)"

definition matchLayer :: "string \<Rightarrow> string \<Rightarrow> (string \<times> string) list option" where
  "matchLayer pattern p =
     match_segments (split CHR ''/'' pattern) (split CHR ''/'' (strip_slash p))"

fun decode_params :: "'db env \<Rightarrow> (string \<times> string) list \<Rightarrow> (string \<times> string) list option" where
  "decode_params env [] = Some []"
| "decode_params env ((k, v) # ps) =
     (case decodeURIComponent env v of
        None \<Rightarrow> None
      | Some v' \<Rightarrow> map_option ((#) (k, v')) (decode_params env ps))"

text \<open>
  A route registered for GET also answers HEAD; the request's method is compared in
  lower case.
\<close>

definition handles_method :: "string \<Rightarrow> string \<Rightarrow> bool" where
  "handles_method route_method m =
     (let name = toLowerCase m
      in (if name = ''head'' \<and> route_method \<noteq> ''head'' then ''get'' else name) = route_method)"

text \<open>
  Running a handler: the one of this module reads the counter; the others work on the
  store. The model gives them no access to the counter: \<^verbatim>\<open>httpRequestCounter\<close> is a
  constant local to the module, which exports nothing. A handler that fails hands its
  error to Express's final handler.
\<close>

fun run_handler :: "'db env \<Rightarrow> handler \<Rightarrow> request \<Rightarrow> 'db process \<Rightarrow> outcome \<times> 'db process" where
  "run_handler env metricsHandler req st = (Sent (serveMetrics env req st), st)"
| "run_handler env h req st =
     (case route_handler env h req (db st) of
        (Inl e, d) \<Rightarrow> (Failed e, st\<lparr>db := d\<rparr>)
      | (Inr res, d) \<Rightarrow> (Sent res, st\<lparr>db := d\<rparr>))"

definition visit :: "stage \<Rightarrow> stage list \<times> 'a \<Rightarrow> stage list \<times> 'a" where
  "visit s r = (s # fst r, snd r)"

text \<open>
  The router's walk: layers in registration order; a middleware either passes the
  request on or ends the walk; a route whose pattern does not match, or whose method
  differs, is passed over; a parameter that cannot be decoded is an error, after which
  no further layer of this stack runs. The result lists the layers that ran.
\<close>

fun handle :: "'db env \<Rightarrow> layer list \<Rightarrow> request \<Rightarrow> 'db process
    \<Rightarrow> stage list \<times> outcome \<times> 'db process" where
  "handle env [] req st = ([], Unanswered, st)"
| "handle env (Use Metrics # ls) req st =
     visit (Ran Metrics) (handle env ls req (metricsMiddleware req st))"
| "handle env (Use Json # ls) req st =
     (case express_json env req of
        Inl e \<Rightarrow> ([Ran Json], Failed e, st)
      | Inr b \<Rightarrow> visit (Ran Json) (handle env ls (req\<lparr>body := b\<rparr>) st))"
| "handle env (Use Static # ls) req st =
     (case express_static env req of
        Some res \<Rightarrow> ([Ran Static], Sent res, st)
      | None \<Rightarrow> visit (Ran Static) (handle env ls req st))"
| "handle env (Route m p h # ls) req st =
     (case matchLayer p (path req) of
        None \<Rightarrow> handle env ls req st
      | Some ps \<Rightarrow>
          (case decode_params env ps of
             None \<Rightarrow> ([], Failed ''Failed to decode param'', st)
           | Some ps' \<Rightarrow>
               if handles_method m (req_method req)
               then ([Dispatched h], run_handler env h (req\<lparr>params := ps'\<rparr>) st)
               else handle env ls req st))"

text \<open>The application as Node's request listener.\<close>

definition app_handle :: "'db env \<Rightarrow> request \<Rightarrow> 'db process \<Rightarrow> stage list \<times> outcome \<times> 'db process" where
  "app_handle env req st = handle env app req st"

subsection \<open>Promises, the console and \<^verbatim>\<open>process.exit\<close>\<close>

text \<open>
  A promise by its fate: \<open>None\<close> when it never settles. A reaction is a callback run
  on the process state; it returns (\<open>Fulfilled\<close>) or throws (\<open>Rejected\<close>).
  \<^verbatim>\<open>.then(f)\<close> runs \<open>f\<close> on fulfilment and passes a rejection on; \<^verbatim>\<open>.catch(g)\<close>
  runs \<open>g\<close> on rejection and passes fulfilment on. Nothing runs in a process that has
  ended.
\<close>

datatype settled = Fulfilled | Rejected error

type_synonym promise = "settled option"

definition promise_then :: "('db process \<Rightarrow> settled \<times> 'db process) \<Rightarrow> promise \<times> 'db process
    \<Rightarrow> promise \<times> 'db process" where
  "promise_then onFulfilled ps =
     (case ps of (p, st) \<Rightarrow>
        if ended st \<noteq> None then (None, st)
        else (case p of
                None \<Rightarrow> (None, st)
              | Some Fulfilled \<Rightarrow> (case onFulfilled st of (r, st') \<Rightarrow> (Some r, st'))
              | Some (Rejected e) \<Rightarrow> (Some (Rejected e), st)))"

definition promise_catch :: "(error \<Rightarrow> 'db process \<Rightarrow> settled \<times> 'db process) \<Rightarrow> promise \<times> 'db process
    \<Rightarrow> promise \<times> 'db process" where
  "promise_catch onRejected ps =
     (case ps of (p, st) \<Rightarrow>
        if ended st \<noteq> None then (None, st)
        else (case p of
                None \<Rightarrow> (None, st)
              | Some Fulfilled \<Rightarrow> (Some Fulfilled, st)
              | Some (Rejected e) \<Rightarrow> (case onRejected e st of (r, st') \<Rightarrow> (Some r, st'))))"

definition console_log :: "string \<Rightarrow> 'db process \<Rightarrow> 'db process" where
  "console_log msg st = st\<lparr>stdout := stdout st @ [msg]\<rparr>"

definition console_error :: "error \<Rightarrow> 'db process \<Rightarrow> 'db process" where
  "console_error err st = st\<lparr>stderr := stderr st @ [err]\<rparr>"

text \<open>
  \<^verbatim>\<open>process.exit(code)\<close>; without an argument the status is \<^verbatim>\<open>process.exitCode\<close>
  when that was set, and 0 otherwise.
\<close>

definition process_exit :: "int option \<Rightarrow> 'db process \<Rightarrow> 'db process" where
  "process_exit code st =
     st\<lparr>ended := Some (Exited (case code of
                                 Some c \<Rightarrow> c
                               | None \<Rightarrow> (case exitCode st of Some c \<Rightarrow> c | None \<Rightarrow> 0)))\<rparr>"

text \<open>
  \<^verbatim>\<open>app.listen(port, callback)\<close>. When the port is bound, the server listens and the
  callback runs. When it cannot be bound, the server emits \<^verbatim>\<open>'error'\<close> after the
  call has returned; the module registers no listener for it, so the error is uncaught
  and Node ends the process with status 1: the server does not listen, the callback
  does not run, and neither \<^verbatim>\<open>console.log\<close> nor \<^verbatim>\<open>console.error\<close> is called (the
  \<^verbatim>\<open>.catch\<close> of line 49 sees no rejection).
\<close>

definition app_listen :: "'db env \<Rightarrow> nat \<Rightarrow> ('db process \<Rightarrow> 'db process) \<Rightarrow> 'db process
    \<Rightarrow> 'db process" where
  "app_listen env port callback st =
     (case listen_error env port of
        None \<Rightarrow> callback (st\<lparr>listening := Some port\<rparr>)
      | Some err \<Rightarrow> st\<lparr>ended := Some (Exited 1)\<rparr>)"

subsection \<open>Start and shutdown (lines 45 to 62)\<close>

text \<open>
  The state after the module's top level has run: nothing counted, nothing printed,
  \<^verbatim>\<open>db.init()\<close> called once and its promise pending.
\<close>

definition start :: "'db \<Rightarrow> 'db process" where
  "start d =
     \<lparr>counter = Map.empty, db = d, listening = None, stdout = [], stderr = [],
      ended = None, exitCode = None, init_settled = False, init_calls = 1,
      teardown_calls = 0\<rparr>"

text \<open>
  Lines 45 to 52, when the promise of \<^verbatim>\<open>db.init()\<close> settles:
  \<^verbatim>\<open>.then(() => app.listen(3000, () => console.log('Listening on port 3000')))\<close>
  \<^verbatim>\<open>.catch((err) => { console.error(err); process.exit(1); })\<close>.
  A promise settles once.
\<close>

definition init_settles :: "'db env \<Rightarrow> settled \<Rightarrow> 'db process \<Rightarrow> 'db process" where
  "init_settles env r st =
     (if init_settled st then st
      else snd (promise_catch (\<lambda>err s. (Fulfilled, process_exit (Some 1) (console_error err s)))
             (promise_then
               (\<lambda>s. (Fulfilled, app_listen env 3000 (console_log ''Listening on port 3000'') s))
               (Some r, st\<lparr>init_settled := True\<rparr>))))"

text \<open>
  Lines 54 to 58: \<^verbatim>\<open>db.teardown().catch(() => {}).then(() => process.exit())\<close>. The
  argument is the fate of the promise \<^verbatim>\<open>db.teardown()\<close> returns (like \<^verbatim>\<open>db.init\<close>,
  the function belongs to the persistence module and reports failure by rejecting).
\<close>

definition gracefulShutdown :: "promise \<Rightarrow> 'db process \<Rightarrow> 'db process" where
  "gracefulShutdown teardown st =
     snd (promise_then (\<lambda>s. (Fulfilled, process_exit None s))
            (promise_catch (\<lambda>err s. (Fulfilled, s))
              (teardown, st\<lparr>teardown_calls := teardown_calls st + 1\<rparr>)))"

text \<open>
  Lines 60 to 62: \<^verbatim>\<open>process.on(signal, gracefulShutdown)\<close>, three times. The table
  holds the listeners by name; the module has one.
\<close>

datatype listener = GracefulShutdown

fun call_listener :: "listener \<Rightarrow> promise \<Rightarrow> 'db process \<Rightarrow> 'db process" where
  "call_listener GracefulShutdown teardown st = gracefulShutdown teardown st"

definition process_on :: "signal \<Rightarrow> listener \<Rightarrow> (signal \<times> listener) list \<Rightarrow> (signal \<times> listener) list" where
  "process_on sig l table = table @ [(sig, l)]"

definition listeners :: "(signal \<times> listener) list" where
  "listeners = foldl (\<lambda>table register. register table) []
     [process_on SIGINT GracefulShutdown,
      process_on SIGTERM GracefulShutdown,
      process_on SIGUSR2 GracefulShutdown]"

text \<open>
  A signal arrives: its listeners run in the order they were registered; a signal
  without a listener keeps its default action, which ends the process at once.
\<close>

definition emit :: "signal \<Rightarrow> promise \<Rightarrow> 'db process \<Rightarrow> 'db process" where
  "emit sig teardown st =
     (if ended st \<noteq> None then st
      else (case map snd (filter (\<lambda>entry. fst entry = sig) listeners) of
              [] \<Rightarrow> st\<lparr>ended := Some (Killed sig)\<rparr>
            | ls \<Rightarrow> foldl (\<lambda>s l. call_listener l teardown s) st ls))"

subsection \<open>The life of the process\<close>

text \<open>
  What can happen to the running process: the promise of \<^verbatim>\<open>db.init()\<close> settles, a
  signal arrives (with the fate of the teardown it may start; the reactions to a
  teardown that settles run within the same event), a request comes in (only a
  listening server receives one).
\<close>

datatype event = InitSettles settled | Signal signal promise | Request request

fun step :: "'db env \<Rightarrow> 'db process \<Rightarrow> event \<Rightarrow> 'db process" where
  "step env st (InitSettles r) = (if ended st \<noteq> None then st else init_settles env r st)"
| "step env st (Signal sig teardown) = emit sig teardown st"
| "step env st (Request req) =
     (if ended st \<noteq> None \<or> listening st = None then st
      else snd (snd (app_handle env req st)))"

definition run :: "'db env \<Rightarrow> event list \<Rightarrow> 'db process \<Rightarrow> 'db process" where
  "run env evs st = foldl (step env) st evs"

subsection \<open>Views of the stack\<close>

text \<open>The routes and the middlewares of a stack, in registration order.\<close>

fun routes :: "layer list \<Rightarrow> (string \<times> string \<times> handler) list" where
  "routes [] = []"
| "routes (Route m p h # ls) = (m, p, h) # routes ls"
| "routes (Use mw # ls) = routes ls"

fun middlewares :: "layer list \<Rightarrow> middleware list" where
  "middlewares [] = []"
| "middlewares (Use mw # ls) = mw # middlewares ls"
| "middlewares (Route m p h # ls) = middlewares ls"

text \<open>The five routes registered after the two library middlewares.\<close>

definition api_routes :: "layer list" where
  "api_routes = drop 4 app"

text \<open>The segments a pattern is matched against.\<close>

definition segments :: "string \<Rightarrow> string list" where
  "segments p = split CHR ''/'' (strip_slash p)"

subsection \<open>Reading a result; the part of the state a request never touches\<close>

definition stages_of :: "stage list \<times> outcome \<times> 'db process \<Rightarrow> stage list" where
  "stages_of r = fst r"

definition outcome_of :: "stage list \<times> outcome \<times> 'db process \<Rightarrow> outcome" where
  "outcome_of r = fst (snd r)"

definition state_of :: "stage list \<times> outcome \<times> 'db process \<Rightarrow> 'db process" where
  "state_of r = snd (snd r)"

definition lifecycle :: "'db process \<Rightarrow>
    nat option \<times> string list \<times> error list \<times> ending option \<times> int option \<times> bool \<times> nat \<times> nat" where
  "lifecycle st =
     (listening st, stdout st, stderr st, ended st, exitCode st, init_settled st,
      init_calls st, teardown_calls st)"

text \<open>
  What holds of every state the process reaches: the module never assigns
  \<^verbatim>\<open>process.exitCode\<close>, calls \<^verbatim>\<open>db.init\<close> once, and listens only after the promise
  of \<^verbatim>\<open>db.init()\<close> has settled.
\<close>

definition wired :: "'db process \<Rightarrow> bool" where
  "wired st = (exitCode st = None \<and> init_calls st = 1 \<and> (init_settled st \<or> listening st = None))"

subsection \<open>A concrete environment and concrete requests\<close>

text \<open>
  An environment to run the model in: every body parses to itself, no static file
  exists, every handler answers 200 and leaves the store alone, the registry renders
  the count of GET requests as a line of text, every parameter decodes to itself,
  every port can be bound.
\<close>

definition example_env :: "unit env" where
  "example_env =
     \<lparr>express_json = (\<lambda>req. Inr (body req)),
      express_static = (\<lambda>req. None),
      route_handler = (\<lambda>h req d. (Inr \<lparr>statusCode = 200, headers = [], data = ''ok''\<rparr>, d)),
      register_metrics = (\<lambda>c. replicate (count_of c ''GET'') CHR ''|''),
      decodeURIComponent = Some,
      listen_error = (\<lambda>port. None)\<rparr>"

definition get_request :: "string \<Rightarrow> request" where
  "get_request p = \<lparr>req_method = ''GET'', path = p, params = [], body = []\<rparr>"

text \<open>The same environment with one static file, \<^verbatim>\<open>static/index.html\<close>.\<close>

definition static_env :: "unit env" where
  "static_env =
     example_env\<lparr>express_static :=
       (\<lambda>req. if path req = ''/index.html''
              then Some \<lparr>statusCode = 200, headers = [], data = ''<html>''\<rparr> else None)\<rparr>"

text \<open>The same environment with every port in use.\<close>

definition busy_env :: "unit env" where
  "busy_env = example_env\<lparr>listen_error := (\<lambda>port. Some ''EADDRINUSE'')\<rparr>"

definition put_request :: "string \<Rightarrow> request" where
  "put_request p = \<lparr>req_method = ''PUT'', path = p, params = [], body = ''{}''\<rparr>"

definition patch_request :: "string \<Rightarrow> request" where
  "patch_request p = \<lparr>req_method = ''PATCH'', path = p, params = [], body = ''{}''\<rparr>"

section \<open>Properties\<close>

subsection \<open>Auxiliary facts: the walk through the stack\<close>

lemma visit_snd [simp]: "snd (visit s r) = snd r"
  by (simp add: visit_def)

lemma visit_fst [simp]: "fst (visit s r) = s # fst r"
  by (simp add: visit_def)

lemma app_unfold:
  "app = [Use Metrics, Route ''get'' ''/metrics'' metricsHandler, Use Json, Use Static,
          Route ''get'' ''/api/greeting'' getGreeting, Route ''get'' ''/api/items'' getItems,
          Route ''post'' ''/api/items'' addItem, Route ''put'' ''/api/items/:id'' updateItem,
          Route ''delete'' ''/api/items/:id'' deleteItem]"
  by (simp add: app_def app_use_def app_get_def app_post_def app_put_def app_delete_def)

lemma run_handler_lifecycle: "lifecycle (snd (run_handler env h req st)) = lifecycle st"
  by (cases h) (auto simp: lifecycle_def split: prod.splits sum.splits)

lemma run_handler_counter: "counter (snd (run_handler env h req st)) = counter st"
  by (cases h) (auto split: prod.splits sum.splits)

lemma metricsMiddleware_lifecycle: "lifecycle (metricsMiddleware req st) = lifecycle st"
  by (simp add: lifecycle_def metricsMiddleware_def)

lemma handle_lifecycle: "lifecycle (snd (snd (handle env ls req st))) = lifecycle st"
  by (induction env ls req st rule: handle.induct)
     (simp_all add: run_handler_lifecycle metricsMiddleware_lifecycle
        split: sum.splits option.splits)

lemma handle_counter_no_metrics:
  "Use Metrics \<notin> set ls \<Longrightarrow> counter (snd (snd (handle env ls req st))) = counter st"
  by (induction env ls req st rule: handle.induct)
     (simp_all add: run_handler_counter split: sum.splits option.splits)

lemma app_handle_counter:
  "counter (snd (snd (app_handle env req st))) = counter (metricsMiddleware req st)"
  by (simp add: app_handle_def app_unfold handle_counter_no_metrics del: handle.simps(3-5))

lemma app_handle_lifecycle: "lifecycle (snd (snd (app_handle env req st))) = lifecycle st"
  by (simp add: app_handle_def handle_lifecycle)

lemma count_of_inc: "count_of (inc m c) k = (if k = m then count_of c m + 1 else count_of c k)"
  by (simp add: inc_def count_of_def)

lemma counter_metricsMiddleware:
  "counter (metricsMiddleware req st) =
     (if startsWith (path req) ''/api'' then inc (req_method req) (counter st) else counter st)"
  by (simp add: metricsMiddleware_def)

subsection \<open>Auxiliary facts: start, shutdown and runs\<close>

lemma gracefulShutdown_settled:
  "ended st = None \<Longrightarrow>
   gracefulShutdown (Some r) st = process_exit None (st\<lparr>teardown_calls := teardown_calls st + 1\<rparr>)"
  by (cases r) (simp_all add: gracefulShutdown_def promise_then_def promise_catch_def)

lemma gracefulShutdown_pending:
  "gracefulShutdown None st = st\<lparr>teardown_calls := teardown_calls st + 1\<rparr>"
  by (simp add: gracefulShutdown_def promise_then_def promise_catch_def)

lemma listeners_unfold:
  "listeners = [(SIGINT, GracefulShutdown), (SIGTERM, GracefulShutdown), (SIGUSR2, GracefulShutdown)]"
  by (simp add: listeners_def process_on_def)

lemma emit_handled:
  "sig \<in> {SIGINT, SIGTERM, SIGUSR2} \<Longrightarrow>
   emit sig teardown st = (if ended st \<noteq> None then st else gracefulShutdown teardown st)"
  by (auto simp: emit_def listeners_unfold)

lemma init_settles_Fulfilled:
  "ended st = None \<Longrightarrow> \<not> init_settled st \<Longrightarrow> listen_error env 3000 = None \<Longrightarrow>
   init_settles env Fulfilled st =
     st\<lparr>init_settled := True, listening := Some 3000,
        stdout := stdout st @ [''Listening on port 3000'']\<rparr>"
  by (simp add: init_settles_def promise_then_def promise_catch_def app_listen_def console_log_def)

lemma init_settles_Fulfilled_busy:
  "ended st = None \<Longrightarrow> \<not> init_settled st \<Longrightarrow> listen_error env 3000 = Some err \<Longrightarrow>
   init_settles env Fulfilled st = st\<lparr>init_settled := True, ended := Some (Exited 1)\<rparr>"
  by (simp add: init_settles_def promise_then_def promise_catch_def app_listen_def)

lemma init_settles_Rejected:
  "ended st = None \<Longrightarrow> \<not> init_settled st \<Longrightarrow>
   init_settles env (Rejected e) st =
     st\<lparr>init_settled := True, stderr := stderr st @ [e], ended := Some (Exited 1)\<rparr>"
  by (simp add: init_settles_def promise_then_def promise_catch_def process_exit_def
      console_error_def)

lemma step_ended: "ended st \<noteq> None \<Longrightarrow> step env st ev = st"
  by (cases ev) (auto simp: emit_def)

lemma run_ended: "ended st \<noteq> None \<Longrightarrow> run env evs st = st"
  unfolding run_def by (induction evs) (simp_all add: step_ended)

lemma run_snoc: "run env (evs @ [ev]) st = step env (run env evs st) ev"
  by (simp add: run_def)

lemma wired_start: "wired (start d)"
  by (simp add: wired_def start_def)

lemma wired_lifecycle: "lifecycle st' = lifecycle st \<Longrightarrow> wired st' = wired st"
  by (simp add: wired_def lifecycle_def)

lemma wired_init_settles: "wired st \<Longrightarrow> wired (init_settles env r st)"
  by (cases r) (auto simp: wired_def init_settles_def promise_then_def promise_catch_def
      app_listen_def console_log_def process_exit_def console_error_def split: option.splits)

lemma wired_emit: "wired st \<Longrightarrow> wired (emit sig teardown st)"
  by (cases sig; cases teardown)
     (auto simp: wired_def emit_def listeners_unfold gracefulShutdown_def promise_then_def
        promise_catch_def process_exit_def split: settled.splits)

lemma wired_step: "wired st \<Longrightarrow> wired (step env st ev)"
  by (cases ev)
     (auto simp: wired_init_settles wired_emit wired_lifecycle [OF app_handle_lifecycle])

lemma wired_run: "wired st \<Longrightarrow> wired (run env evs st)"
  by (induction evs rule: rev_induct) (simp_all add: run_snoc wired_step run_def)

lemma counter_init_settles: "counter (init_settles env r st) = counter st"
  by (cases r) (auto simp: init_settles_def promise_then_def promise_catch_def
      app_listen_def console_log_def process_exit_def console_error_def split: option.splits)

lemma counter_emit: "counter (emit sig teardown st) = counter st"
  by (cases sig; cases teardown)
     (auto simp: emit_def listeners_unfold gracefulShutdown_def promise_then_def
        promise_catch_def process_exit_def split: settled.splits)

lemma counter_step:
  "counter (step env st ev) = counter st \<or> (\<exists>m. counter (step env st ev) = inc m (counter st))"
  by (cases ev)
     (auto simp: counter_init_settles counter_emit app_handle_counter counter_metricsMiddleware)

lemma count_of_step: "count_of (counter st) m \<le> count_of (counter (step env st ev)) m"
  using counter_step [of env st ev] by (auto simp: count_of_inc)

lemma dom_step: "dom (counter st) \<subseteq> dom (counter (step env st ev))"
  using counter_step [of env st ev] by (auto simp: inc_def)

lemma count_of_run: "count_of (counter st) m \<le> count_of (counter (run env evs st)) m"
proof (induction evs rule: rev_induct)
  case Nil
  show ?case by (simp add: run_def)
next
  case (snoc ev evs)
  have "count_of (counter (run env evs st)) m
      \<le> count_of (counter (step env (run env evs st) ev)) m"
    by (rule count_of_step)
  with snoc show ?case by (simp add: run_snoc)
qed

lemma dom_run: "dom (counter st) \<subseteq> dom (counter (run env evs st))"
proof (induction evs rule: rev_induct)
  case Nil
  show ?case by (simp add: run_def)
next
  case (snoc ev evs)
  have "dom (counter (run env evs st)) \<subseteq> dom (counter (step env (run env evs st) ev))"
    by (rule dom_step)
  with snoc show ?case by (simp add: run_snoc)
qed

lemma lifecycle_step_request: "lifecycle (step env st (Request req)) = lifecycle st"
  by (simp add: app_handle_lifecycle)

subsection \<open>Auxiliary facts: matching and dispatch\<close>

lemma match_segments_Nil: "match_segments [] ts = (case ts of [] \<Rightarrow> Some [] | _ \<Rightarrow> None)"
  by (cases ts) simp_all

lemma match_segments_Cons:
  "match_segments (s # ss) ts =
     (case ts of [] \<Rightarrow> None
      | t # ts' \<Rightarrow>
          if startsWith s '':''
          then (if t = [] then None else map_option ((#) (tl s, t)) (match_segments ss ts'))
          else (if toLowerCase s = toLowerCase t then match_segments ss ts' else None))"
  by (cases ts) simp_all

lemma toLowerCase_Nil [simp]:
  "toLowerCase s = [] \<longleftrightarrow> s = []" "[] = toLowerCase s \<longleftrightarrow> s = []" "toLowerCase [] = []"
  by (auto simp: toLowerCase_def)

lemma lower_consts:
  "toLowerCase ''api'' = ''api''" "toLowerCase ''metrics'' = ''metrics''"
  "toLowerCase ''greeting'' = ''greeting''" "toLowerCase ''items'' = ''items''"
  by (simp_all add: toLowerCase_def)

lemma matchLayer_metrics:
  "matchLayer ''/metrics'' p = (if \<exists>b. segments p = [[], b] \<and> toLowerCase b = ''metrics'' then Some [] else None)"
  by (auto simp: matchLayer_def segments_def match_segments_Cons match_segments_Nil startsWith_def lower_consts split: list.splits)

lemma matchLayer_greeting:
  "matchLayer ''/api/greeting'' p =
     (if \<exists>b c. segments p = [[], b, c] \<and> toLowerCase b = ''api'' \<and> toLowerCase c = ''greeting''
      then Some [] else None)"
  by (auto simp: matchLayer_def segments_def match_segments_Cons match_segments_Nil startsWith_def lower_consts split: list.splits)

lemma matchLayer_items:
  "matchLayer ''/api/items'' p =
     (if \<exists>b c. segments p = [[], b, c] \<and> toLowerCase b = ''api'' \<and> toLowerCase c = ''items''
      then Some [] else None)"
  by (auto simp: matchLayer_def segments_def match_segments_Cons match_segments_Nil startsWith_def lower_consts split: list.splits)

lemma matchLayer_item:
  "matchLayer ''/api/items/:id'' p =
     (case segments p of
        [a, b, c, d] \<Rightarrow>
          if a = [] \<and> toLowerCase b = ''api'' \<and> toLowerCase c = ''items'' \<and> d \<noteq> []
          then Some [(''id'', d)] else None
      | _ \<Rightarrow> None)"
  by (auto simp: matchLayer_def segments_def match_segments_Cons match_segments_Nil startsWith_def lower_consts split: list.splits)


lemma split_not_Nil: "split c xs \<noteq> []"
  by (induction xs) (auto split: list.splits)

lemma split_Cons_other: "x \<noteq> c \<Longrightarrow> \<exists>y ys. split c (x # xs) = (x # y) # ys"
  using split_not_Nil [of c xs] by (cases "split c xs") auto

lemma strip_slash_api:
  assumes "startsWith p ''/api''"
  shows "\<exists>q. strip_slash p = ''/api'' @ q"
proof -
  define q where "q = drop (length ''/api'') p"
  have "take (length ''/api'') p @ q = p"
    unfolding q_def by (rule append_take_drop_id)
  moreover have "take (length ''/api'') p = ''/api''"
    using assms unfolding startsWith_def .
  ultimately have p: "p = ''/api'' @ q"
    by simp
  show ?thesis
  proof (cases "q = []")
    case True
    with p show ?thesis by (simp add: strip_slash_def)
  next
    case False
    then have "butlast (''/api'' @ q) = ''/api'' @ butlast q"
      by (simp add: butlast_append)
    then show ?thesis
      unfolding strip_slash_def p by (simp del: butlast.simps)
  qed
qed

lemma segments_api:
  assumes "startsWith p ''/api''"
  shows "\<exists>y ys. segments p = [] # (CHR ''a'' # y) # ys"
proof -
  obtain q where q: "strip_slash p = ''/api'' @ q"
    using strip_slash_api [OF assms] by blast
  obtain y ys where "split CHR ''/'' (''api'' @ q) = (CHR ''a'' # y) # ys"
    using split_Cons_other [of "CHR ''a''" "CHR ''/''" "''pi'' @ q"] by auto
  then show ?thesis by (simp add: segments_def q)
qed

lemma metrics_not_api: "matchLayer ''/metrics'' p \<noteq> None \<Longrightarrow> \<not> startsWith p ''/api''"
proof
  assume m: "matchLayer ''/metrics'' p \<noteq> None" and a: "startsWith p ''/api''"
  obtain y ys where "segments p = [] # (CHR ''a'' # y) # ys"
    using segments_api [OF a] by blast
  with m show False
    by (auto simp: matchLayer_metrics toLowerCase_def split: if_splits)
qed


lemma handles_get_GET: "handles_method ''get'' ''GET''"
  by (simp add: handles_method_def toLowerCase_def)

lemma handles_method_unique:
  "handles_method m x \<Longrightarrow> handles_method m' x \<Longrightarrow> m \<noteq> ''head'' \<Longrightarrow> m' \<noteq> ''head'' \<Longrightarrow> m = m'"
  by (auto simp: handles_method_def Let_def split: if_splits)

lemma routes_app:
  "routes app = [(''get'', ''/metrics'', metricsHandler), (''get'', ''/api/greeting'', getGreeting),
     (''get'', ''/api/items'', getItems), (''post'', ''/api/items'', addItem),
     (''put'', ''/api/items/:id'', updateItem), (''delete'', ''/api/items/:id'', deleteItem)]"
  by (simp add: app_unfold)

lemma middlewares_app: "middlewares app = [Metrics, Json, Static]"
  by (simp add: app_unfold)

lemma dispatched_registered:
  "Dispatched h \<in> set (fst (handle env ls req st)) \<Longrightarrow>
   \<exists>m p. (m, p, h) \<in> set (routes ls) \<and> handles_method m (req_method req)
        \<and> matchLayer p (path req) \<noteq> None"
proof (induction env ls req st rule: handle.induct)
  case (5 env m p h' ls req st)
  show ?case
  proof (cases "matchLayer p (path req)")
    case None
    then show ?thesis using 5 by auto
  next
    case (Some ps)
    note ps = this
    show ?thesis
    proof (cases "decode_params env ps")
      case None
      then show ?thesis using 5(3) ps by simp
    next
      case (Some ps')
      show ?thesis
      proof (cases "handles_method m (req_method req)")
        case True
        then show ?thesis using 5(3) ps Some by auto
      next
        case False
        then have "Dispatched h \<in> set (fst (handle env ls req st))"
          using 5(3) ps Some by simp
        then show ?thesis using 5(2) [OF ps Some False] by auto
      qed
    qed
  qed
qed (auto split: sum.splits option.splits)

lemma api_routes_unfold:
  "api_routes = [Route ''get'' ''/api/greeting'' getGreeting, Route ''get'' ''/api/items'' getItems,
     Route ''post'' ''/api/items'' addItem, Route ''put'' ''/api/items/:id'' updateItem,
     Route ''delete'' ''/api/items/:id'' deleteItem]"
  by (simp add: api_routes_def app_unfold)

lemma app_split: "app = Use Metrics # Route ''get'' ''/metrics'' metricsHandler # Use Json # Use Static # api_routes"
  by (simp add: api_routes_unfold app_unfold)

lemma api_not_metrics:
  "(m, p, h) \<in> set (routes api_routes) \<Longrightarrow> matchLayer p x \<noteq> None \<Longrightarrow> matchLayer ''/metrics'' x = None"
  by (auto simp: api_routes_unfold matchLayer_metrics matchLayer_greeting matchLayer_items
      matchLayer_item split: if_splits list.splits)

lemma api_dispatch:
  assumes "(m, p, h) \<in> set (routes api_routes)"
    and "handles_method m (req_method req)"
    and "matchLayer p (path req) = Some ps"
    and "decode_params env ps = Some ps'"
  shows "handle env api_routes req st = ([Dispatched h], run_handler env h (req\<lparr>params := ps'\<rparr>) st)"
proof -
  have no_head: "m \<noteq> ''head''"
    using assms(1) by (auto simp: api_routes_unfold)
  have get: "m \<noteq> ''get'' \<Longrightarrow> \<not> handles_method ''get'' (req_method req)"
    using handles_method_unique [OF assms(2), of "''get''"] no_head by auto
  have post: "m \<noteq> ''post'' \<Longrightarrow> \<not> handles_method ''post'' (req_method req)"
    using handles_method_unique [OF assms(2), of "''post''"] no_head by auto
  have put: "m \<noteq> ''put'' \<Longrightarrow> \<not> handles_method ''put'' (req_method req)"
    using handles_method_unique [OF assms(2), of "''put''"] no_head by auto
  consider (greeting) "m = ''get''" "p = ''/api/greeting''" "h = getGreeting"
    | (items) "m = ''get''" "p = ''/api/items''" "h = getItems"
    | (add) "m = ''post''" "p = ''/api/items''" "h = addItem"
    | (update) "m = ''put''" "p = ''/api/items/:id''" "h = updateItem"
    | (delete) "m = ''delete''" "p = ''/api/items/:id''" "h = deleteItem"
    using assms(1) by (auto simp: api_routes_unfold)
  then show ?thesis
  proof cases
    case greeting
    then show ?thesis using assms by (simp add: api_routes_unfold)
  next
    case items
    have "matchLayer ''/api/greeting'' (path req) = None"
      using assms(3) items by (auto simp: matchLayer_greeting matchLayer_items split: if_splits)
    then show ?thesis using assms items by (simp add: api_routes_unfold)
  next
    case add
    have "matchLayer ''/api/greeting'' (path req) = None"
      using assms(3) add by (auto simp: matchLayer_greeting matchLayer_items split: if_splits)
    moreover have "\<not> handles_method ''get'' (req_method req)"
      using get add by simp
    ultimately show ?thesis using assms add by (simp add: api_routes_unfold)
  next
    case update
    have "matchLayer ''/api/greeting'' (path req) = None" "matchLayer ''/api/items'' (path req) = None"
      using assms(3) update
      by (auto simp: matchLayer_greeting matchLayer_items matchLayer_item split: if_splits list.splits)
    then show ?thesis using assms update by (simp add: api_routes_unfold)
  next
    case delete
    have "matchLayer ''/api/greeting'' (path req) = None" "matchLayer ''/api/items'' (path req) = None"
      using assms(3) delete
      by (auto simp: matchLayer_greeting matchLayer_items matchLayer_item split: if_splits list.splits)
    moreover have "\<not> handles_method ''put'' (req_method req)"
      using put delete by simp
    ultimately show ?thesis using assms delete by (simp add: api_routes_unfold)
  qed
qed


lemma app_handle_metrics_route:
  assumes "handles_method ''get'' (req_method req)" and "matchLayer ''/metrics'' (path req) \<noteq> None"
  shows "app_handle env req st =
     ([Ran Metrics, Dispatched metricsHandler],
      Sent (serveMetrics env (req\<lparr>params := []\<rparr>) (metricsMiddleware req st)),
      metricsMiddleware req st)"
proof -
  have "matchLayer ''/metrics'' (path req) = Some []"
    using assms(2) by (simp add: matchLayer_metrics split: if_splits)
  then show ?thesis
    using assms(1) by (simp add: app_handle_def app_unfold visit_def)
qed

lemma app_handle_past_metrics:
  assumes "\<not> (handles_method ''get'' (req_method req) \<and> matchLayer ''/metrics'' (path req) \<noteq> None)"
  shows "app_handle env req st =
     visit (Ran Metrics) (handle env (Use Json # Use Static # api_routes) req (metricsMiddleware req st))"
proof (cases "matchLayer ''/metrics'' (path req)")
  case None
  then show ?thesis by (simp add: app_handle_def app_split)
next
  case (Some ps)
  then have "ps = []" by (simp add: matchLayer_metrics split: if_splits)
  with Some assms show ?thesis by (simp add: app_handle_def app_split)
qed

lemma routes_app_api: "routes app = (''get'', ''/metrics'', metricsHandler) # routes api_routes"
  by (simp add: app_split)


lemma app_handle_api_route:
  assumes "(m, p, h) \<in> set (routes app)" and "h \<noteq> metricsHandler"
    and "handles_method m (req_method req)"
    and "matchLayer p (path req) = Some ps"
    and "decode_params env ps = Some ps'"
    and "express_json env req = Inr b"
    and "express_static env (req\<lparr>body := b\<rparr>) = None"
  shows "app_handle env req st =
     ([Ran Metrics, Ran Json, Ran Static, Dispatched h],
      run_handler env h (req\<lparr>body := b, params := ps'\<rparr>) (metricsMiddleware req st))"
proof -
  have api: "(m, p, h) \<in> set (routes api_routes)"
    using assms(1,2) by (simp add: routes_app_api)
  have "matchLayer ''/metrics'' (path req) = None"
    using api assms(4) by (auto dest: api_not_metrics)
  then have past: "app_handle env req st =
     visit (Ran Metrics) (handle env (Use Json # Use Static # api_routes) req (metricsMiddleware req st))"
    by (simp add: app_handle_past_metrics)
  have "handle env api_routes (req\<lparr>body := b\<rparr>) (metricsMiddleware req st) =
     ([Dispatched h], run_handler env h (req\<lparr>body := b, params := ps'\<rparr>) (metricsMiddleware req st))"
    using api_dispatch [OF api, of "req\<lparr>body := b\<rparr>" ps env ps'] assms(3,4,5) by simp
  then show ?thesis
    using past assms(6,7) by (simp add: visit_def)
qed

lemma app_handle_static:
  assumes "\<not> (handles_method ''get'' (req_method req) \<and> matchLayer ''/metrics'' (path req) \<noteq> None)"
    and "express_json env req = Inr b"
    and "express_static env (req\<lparr>body := b\<rparr>) = Some res"
  shows "app_handle env req st = ([Ran Metrics, Ran Json, Ran Static], Sent res, metricsMiddleware req st)"
  by (simp add: app_handle_past_metrics [OF assms(1)] assms(2,3) visit_def)



lemma put_item_matches: "matchLayer ''/api/items/:id'' ''/api/items/7'' = Some [(''id'', ''7'')]"
  by (simp add: matchLayer_def strip_slash_def startsWith_def toLowerCase_def)

lemma handles_put_PUT: "handles_method ''put'' ''PUT''"
  by (simp add: handles_method_def toLowerCase_def)

subsection \<open>The request counter\<close>

text \<open>
  Claim C1. Whatever the environment does with the request afterwards (a handler that
  answers, one that fails, a body that does not parse, no route at all), handling one
  request whose path starts with \<^verbatim>\<open>/api\<close> adds exactly 1 to the count of the
  request's method and leaves every other count alone; handling a request with any
  other path leaves the counter as it was. The counting middleware is the first layer
  that runs, ahead of every route.
\<close>

theorem counter_incremented_once_per_api_request:
  "counter (state_of (app_handle env req st)) =
     (if startsWith (path req) ''/api''
      then (counter st)(req_method req \<mapsto> count_of (counter st) (req_method req) + 1)
      else counter st)
   \<and> count_of (counter (state_of (app_handle env req st))) m =
       count_of (counter st) m
         + (if startsWith (path req) ''/api'' \<and> m = req_method req then 1 else 0)
   \<and> (\<exists>rest. stages_of (app_handle env req st) = Ran Metrics # rest)"
proof -
  have "stages_of (app_handle env req st) =
      Ran Metrics # fst (handle env (tl app) req (metricsMiddleware req st))"
    by (simp add: stages_of_def app_handle_def app_unfold del: handle.simps(3-5))
  then show ?thesis
    by (simp add: state_of_def app_handle_counter counter_metricsMiddleware count_of_inc)
       (simp add: inc_def)
qed

text \<open>
  Claim C8. The counter is one map for the whole process, keyed by the method. No
  event in the life of the process lowers a count or removes an entry: not a request,
  not the settling of \<^verbatim>\<open>db.init()\<close>, not a signal; so no run of events does. A fresh
  process starts with the empty counter.
\<close>

theorem counter_never_decreases:
  "count_of (counter st) m \<le> count_of (counter (step env st ev)) m
   \<and> count_of (counter st) m \<le> count_of (counter (run env evs st)) m
   \<and> dom (counter st) \<subseteq> dom (counter (run env evs st))
   \<and> counter (start d) = Map.empty"
  by (simp add: count_of_step count_of_run dom_run) (simp add: start_def)

subsection \<open>Start and shutdown\<close>

text \<open>
  Claim C2, as the code has it. While the promise of \<^verbatim>\<open>db.init()\<close> is pending the
  server does not listen. When it is fulfilled, \<^verbatim>\<open>app.listen(3000)\<close> is called: if
  port 3000 can be bound the server listens on it and the process goes on; if it
  cannot, the process ends with status 1 and the server never listens. When the promise
  is rejected, the error is handed to \<^verbatim>\<open>console.error\<close> and the process exits with
  status 1; whatever arrives afterwards, the server never listens. \<^verbatim>\<open>db.init\<close> has
  been called once and is never called again.
\<close>

theorem startup_awaits_init:
  assumes "st = run env pre (start d)" and "ended st = None" and "\<not> init_settled st"
  shows "listening st = None
       \<and> (case listen_error env 3000 of
            None \<Rightarrow>
              listening (init_settles env Fulfilled st) = Some 3000
              \<and> ended (init_settles env Fulfilled st) = None
              \<and> stdout (init_settles env Fulfilled st) = stdout st @ [''Listening on port 3000'']
          | Some err \<Rightarrow>
              ended (init_settles env Fulfilled st) = Some (Exited 1)
              \<and> listening (run env' post (init_settles env Fulfilled st)) = None
              \<and> stdout (init_settles env Fulfilled st) = stdout st
              \<and> stderr (init_settles env Fulfilled st) = stderr st)
       \<and> ended (init_settles env (Rejected e) st) = Some (Exited 1)
       \<and> stderr (init_settles env (Rejected e) st) = stderr st @ [e]
       \<and> listening (run env' post (init_settles env (Rejected e) st)) = None
       \<and> init_calls (run env' post (init_settles env r st)) = 1"
proof -
  have w: "wired st"
    using assms(1) by (simp add: wired_run wired_start)
  then have quiet: "listening st = None"
    using assms(3) by (simp add: wired_def)
  have "wired (run env' post (init_settles env r st))"
    using w by (simp add: wired_run wired_init_settles)
  then have calls: "init_calls (run env' post (init_settles env r st)) = 1"
    by (simp add: wired_def)
  have "ended (init_settles env (Rejected e) st) \<noteq> None"
    using assms(2,3) by (simp add: init_settles_Rejected)
  then have "run env' post (init_settles env (Rejected e) st) = init_settles env (Rejected e) st"
    by (rule run_ended)
  then have rejected: "ended (init_settles env (Rejected e) st) = Some (Exited 1)
       \<and> stderr (init_settles env (Rejected e) st) = stderr st @ [e]
       \<and> listening (run env' post (init_settles env (Rejected e) st)) = None"
    using quiet assms(2,3) by (simp add: init_settles_Rejected)
  have fulfilled: "case listen_error env 3000 of
            None \<Rightarrow>
              listening (init_settles env Fulfilled st) = Some 3000
              \<and> ended (init_settles env Fulfilled st) = None
              \<and> stdout (init_settles env Fulfilled st) = stdout st @ [''Listening on port 3000'']
          | Some err \<Rightarrow>
              ended (init_settles env Fulfilled st) = Some (Exited 1)
              \<and> listening (run env' post (init_settles env Fulfilled st)) = None
              \<and> stdout (init_settles env Fulfilled st) = stdout st
              \<and> stderr (init_settles env Fulfilled st) = stderr st"
  proof (cases "listen_error env 3000")
    case None
    then show ?thesis
      using assms(2,3) by (simp add: init_settles_Fulfilled)
  next
    case (Some err)
    then have eq: "init_settles env Fulfilled st = st\<lparr>init_settled := True, ended := Some (Exited 1)\<rparr>"
      using assms(2,3) by (simp add: init_settles_Fulfilled_busy)
    then have "ended (init_settles env Fulfilled st) \<noteq> None"
      by simp
    then have "run env' post (init_settles env Fulfilled st) = init_settles env Fulfilled st"
      by (rule run_ended)
    then show ?thesis
      using Some eq quiet by simp
  qed
  from quiet fulfilled rejected calls show ?thesis
    by simp
qed

theorem startup_awaits_init_witness:
  "ended (run example_env [Signal SIGINT None] (start ())) = None
   \<and> \<not> init_settled (run example_env [Signal SIGINT None] (start ()))
   \<and> listening (init_settles example_env Fulfilled
        (run example_env [Signal SIGINT None] (start ()))) = Some 3000
   \<and> ended (init_settles example_env (Rejected ''ECONNREFUSED'')
        (run example_env [Signal SIGINT None] (start ()))) = Some (Exited 1)
   \<and> listening (run example_env [Request (get_request ''/api/items'')]
        (init_settles example_env (Rejected ''ECONNREFUSED'')
          (run example_env [Signal SIGINT None] (start ())))) = None
   \<and> ended (run busy_env [Signal SIGINT None] (start ())) = None
   \<and> \<not> init_settled (run busy_env [Signal SIGINT None] (start ()))
   \<and> ended (init_settles busy_env Fulfilled (run busy_env [Signal SIGINT None] (start ())))
       = Some (Exited 1)
   \<and> listening (run busy_env [Request (get_request ''/api/items'')]
        (init_settles busy_env Fulfilled (run busy_env [Signal SIGINT None] (start ())))) = None"
proof -
  have a: "ended (run example_env [Signal SIGINT None] (start ())) = None"
    by (simp add: run_def emit_def listeners_unfold gracefulShutdown_pending start_def)
  have b: "\<not> init_settled (run example_env [Signal SIGINT None] (start ()))"
    by (simp add: run_def emit_def listeners_unfold gracefulShutdown_pending start_def)
  have a': "ended (run busy_env [Signal SIGINT None] (start ())) = None"
    by (simp add: run_def emit_def listeners_unfold gracefulShutdown_pending start_def)
  have b': "\<not> init_settled (run busy_env [Signal SIGINT None] (start ()))"
    by (simp add: run_def emit_def listeners_unfold gracefulShutdown_pending start_def)
  have free: "listen_error example_env 3000 = None"
    by (simp add: example_env_def)
  have busy: "listen_error busy_env 3000 = Some ''EADDRINUSE''"
    by (simp add: busy_env_def example_env_def)
  have 1: "listening (init_settles example_env Fulfilled
        (run example_env [Signal SIGINT None] (start ()))) = Some 3000
   \<and> ended (init_settles example_env (Rejected ''ECONNREFUSED'')
        (run example_env [Signal SIGINT None] (start ()))) = Some (Exited 1)
   \<and> listening (run example_env [Request (get_request ''/api/items'')]
        (init_settles example_env (Rejected ''ECONNREFUSED'')
          (run example_env [Signal SIGINT None] (start ())))) = None"
    using startup_awaits_init [OF refl a b, of example_env "[Request (get_request ''/api/items'')]"
        "''ECONNREFUSED''"]
    by (simp add: free)
  have 2: "ended (init_settles busy_env Fulfilled (run busy_env [Signal SIGINT None] (start ())))
       = Some (Exited 1)
   \<and> listening (run busy_env [Request (get_request ''/api/items'')]
        (init_settles busy_env Fulfilled (run busy_env [Signal SIGINT None] (start ())))) = None"
    using startup_awaits_init [OF refl a' b', of busy_env "[Request (get_request ''/api/items'')]"]
    by (simp add: busy)
  from a b a' b' 1 2 show ?thesis
    by simp
qed

text \<open>
  The claim as written has the server listen whenever \<^verbatim>\<open>db.init()\<close> resolves. With
  port 3000 in use the promise resolves, \<^verbatim>\<open>app.listen(3000)\<close> is called, and the
  process ends with status 1 without ever listening.
\<close>

theorem resolved_init_with_busy_port_never_listens:
  "listening (init_settles busy_env Fulfilled (start ())) = None
   \<and> ended (init_settles busy_env Fulfilled (start ())) = Some (Exited 1)"
proof -
  have "listen_error busy_env 3000 = Some ''EADDRINUSE''"
    by (simp add: busy_env_def example_env_def)
  then have "init_settles busy_env Fulfilled (start ())
      = (start ())\<lparr>init_settled := True, ended := Some (Exited 1)\<rparr>"
    by (intro init_settles_Fulfilled_busy) (simp_all add: start_def)
  then show ?thesis
    by (simp add: start_def)
qed

text \<open>
  Claim C3. In a running process, a teardown that fails leaves the same state as one
  that succeeds: the rejection is caught, nothing is written to the error stream, and
  \<^verbatim>\<open>process.exit()\<close> runs. The exit waits for the teardown to settle: while the
  promise is pending the process has not exited.
\<close>

theorem shutdown_swallows_teardown_failure:
  "ended st = None \<Longrightarrow>
     gracefulShutdown (Some (Rejected e)) st = gracefulShutdown (Some Fulfilled) st
   \<and> ended (gracefulShutdown (Some r) st)
       = Some (Exited (case exitCode st of Some c \<Rightarrow> c | None \<Rightarrow> 0))
   \<and> stderr (gracefulShutdown (Some r) st) = stderr st
   \<and> ended (gracefulShutdown None st) = None"
  by (simp add: gracefulShutdown_settled gracefulShutdown_pending process_exit_def)

theorem shutdown_swallows_teardown_failure_witness:
  "ended (start ()) = None
   \<and> gracefulShutdown (Some (Rejected ''pool closed'')) (start ())
       = gracefulShutdown (Some Fulfilled) (start ())
   \<and> ended (gracefulShutdown (Some (Rejected ''pool closed'')) (start ())) = Some (Exited 0)
   \<and> stderr (gracefulShutdown (Some (Rejected ''pool closed'')) (start ())) = []"
proof -
  have a: "ended (start ()) = None"
    by (simp add: start_def)
  show ?thesis
    using a shutdown_swallows_teardown_failure [OF a, of "''pool closed''" Fulfilled]
    by (simp add: start_def)
qed

text \<open>
  Claim C4. SIGINT, SIGTERM and SIGUSR2 do the same thing to every state, for every
  fate of the teardown: each runs \<open>gracefulShutdown\<close> (and nothing, once the process
  has ended).
\<close>

theorem signals_share_one_shutdown:
  "emit SIGINT teardown st = emit SIGTERM teardown st
   \<and> emit SIGUSR2 teardown st = emit SIGTERM teardown st
   \<and> emit SIGTERM teardown st = (if ended st \<noteq> None then st else gracefulShutdown teardown st)"
  by (simp add: emit_handled)

text \<open>
  Claim C10. In every state the process can reach from its start and in which it is
  still running, each of the three signals ends it with exit status 0 once the
  teardown has settled, fulfilled or rejected: \<^verbatim>\<open>process.exit()\<close> has no argument and
  the module never sets \<^verbatim>\<open>process.exitCode\<close>. (A failed start exits with status 1.)
\<close>

theorem shutdown_exits_with_status_zero:
  assumes "st = run env evs (start d)" and "ended st = None"
  shows "ended (emit SIGINT (Some r) st) = Some (Exited 0)
       \<and> ended (emit SIGTERM (Some r) st) = Some (Exited 0)
       \<and> ended (emit SIGUSR2 (Some r) st) = Some (Exited 0)"
proof -
  have "wired st"
    using assms(1) by (simp add: wired_run wired_start)
  then have "exitCode st = None"
    by (simp add: wired_def)
  then show ?thesis
    using assms(2) by (simp add: emit_handled gracefulShutdown_settled process_exit_def)
qed

theorem shutdown_exits_with_status_zero_witness:
  "ended (run example_env [InitSettles Fulfilled, Request (get_request ''/api/items'')] (start ())) = None
   \<and> ended (emit SIGTERM (Some (Rejected ''pool closed''))
        (run example_env [InitSettles Fulfilled, Request (get_request ''/api/items'')] (start ())))
       = Some (Exited 0)
   \<and> ended (emit SIGUSR2 (Some Fulfilled)
        (run example_env [InitSettles Fulfilled, Request (get_request ''/api/items'')] (start ())))
       = Some (Exited 0)"
proof -
  have l: "lifecycle (run example_env [InitSettles Fulfilled, Request (get_request ''/api/items'')] (start ())) = lifecycle (init_settles example_env Fulfilled (start ()))"
    by (simp add: run_def lifecycle_step_request start_def del: step.simps(3))
  have "ended (init_settles example_env Fulfilled (start ())) = None"
    by (simp add: init_settles_Fulfilled start_def example_env_def)
  with l have a: "ended (run example_env [InitSettles Fulfilled, Request (get_request ''/api/items'')] (start ())) = None"
    by (simp add: lifecycle_def)
  show ?thesis
    using a shutdown_exits_with_status_zero [OF refl a, of "Rejected ''pool closed''"]
      shutdown_exits_with_status_zero [OF refl a, of Fulfilled]
    by simp
qed

subsection \<open>The endpoints\<close>

text \<open>
  Claim C5. A GET request whose path is \<^verbatim>\<open>/metrics\<close> (in any letter case, with or
  without a trailing slash) is answered by the module's own handler: status 200, the
  header \<^verbatim>\<open>Content-Type\<close> set to the registry's content type, and as body the text
  the registry renders from the counter as it stands when the request arrives. The
  request itself is not counted, and neither the body parser nor the static
  middleware runs.
\<close>

theorem metrics_endpoint_serves_registry:
  assumes "req_method req = ''GET''" and "matchLayer ''/metrics'' (path req) \<noteq> None"
  shows "outcome_of (app_handle env req st) =
           Sent \<lparr>statusCode = 200, headers = [(''Content-Type'', register_contentType)],
                 data = register_metrics env (counter st)\<rparr>
       \<and> state_of (app_handle env req st) = st
       \<and> stages_of (app_handle env req st) = [Ran Metrics, Dispatched metricsHandler]"
proof -
  have m: "matchLayer ''/metrics'' (path req) = Some []"
    using assms(2) by (simp add: matchLayer_metrics split: if_splits)
  have "\<not> startsWith (path req) ''/api''"
    using assms(2) by (rule metrics_not_api)
  then have same: "metricsMiddleware req st = st"
    by (simp add: metricsMiddleware_def)
  show ?thesis
    by (simp add: outcome_of_def state_of_def stages_of_def app_handle_def app_unfold m same
        assms(1) handles_get_GET serveMetrics_def visit_def)
qed

theorem metrics_endpoint_serves_registry_witness:
  "req_method (get_request ''/metrics'') = ''GET''
   \<and> matchLayer ''/metrics'' (path (get_request ''/metrics'')) \<noteq> None
   \<and> outcome_of (app_handle example_env (get_request ''/metrics'') (start ())) =
       Sent \<lparr>statusCode = 200, headers = [(''Content-Type'', register_contentType)], data = []\<rparr>"
proof -
  have a: "req_method (get_request ''/metrics'') = ''GET''"
    by (simp add: get_request_def)
  have b: "matchLayer ''/metrics'' (path (get_request ''/metrics'')) \<noteq> None"
    by (simp add: get_request_def matchLayer_def strip_slash_def startsWith_def toLowerCase_def)
  show ?thesis
    using a b metrics_endpoint_serves_registry [OF a b, of example_env "start ()"]
    by (simp add: example_env_def start_def count_of_def)
qed

text \<open>
  Claim C6. The stack holds exactly six routes, in this order: GET \<^verbatim>\<open>/metrics\<close>,
  GET \<^verbatim>\<open>/api/greeting\<close>, GET \<^verbatim>\<open>/api/items\<close>, POST \<^verbatim>\<open>/api/items\<close>,
  PUT \<^verbatim>\<open>/api/items/:id\<close>, DELETE \<^verbatim>\<open>/api/items/:id\<close>, and the three middlewares
  counter, body parser, static files. A request whose method and path match
  \<^verbatim>\<open>/metrics\<close> goes to the module's metrics handler. A request whose method and path
  match one of the other five routes goes to that route's handler, with the parsed body
  and the decoded parameters, provided the body parses and no static file answers
  first. No handler runs for a request that matches none of the six. Any request that
  the metrics route does not take, on any path, is answered by the static middleware
  when it finds a file.
\<close>

theorem http_surface:
  "routes app =
     [(''get'', ''/metrics'', metricsHandler), (''get'', ''/api/greeting'', getGreeting),
      (''get'', ''/api/items'', getItems), (''post'', ''/api/items'', addItem),
      (''put'', ''/api/items/:id'', updateItem), (''delete'', ''/api/items/:id'', deleteItem)]
   \<and> middlewares app = [Metrics, Json, Static]
   \<and> (handles_method ''get'' (req_method req) \<and> matchLayer ''/metrics'' (path req) \<noteq> None \<longrightarrow>
        app_handle env req st =
          ([Ran Metrics, Dispatched metricsHandler],
           Sent (serveMetrics env (req\<lparr>params := []\<rparr>) (metricsMiddleware req st)),
           metricsMiddleware req st))
   \<and> ((m, p, h) \<in> set (routes app) \<and> h \<noteq> metricsHandler
        \<and> handles_method m (req_method req) \<and> matchLayer p (path req) = Some ps
        \<and> decode_params env ps = Some ps'
        \<and> express_json env req = Inr b \<and> express_static env (req\<lparr>body := b\<rparr>) = None \<longrightarrow>
        app_handle env req st =
          ([Ran Metrics, Ran Json, Ran Static, Dispatched h],
           run_handler env h (req\<lparr>body := b, params := ps'\<rparr>) (metricsMiddleware req st)))
   \<and> (Dispatched h' \<in> set (stages_of (app_handle env req st)) \<longrightarrow>
        (\<exists>m' p'. (m', p', h') \<in> set (routes app) \<and> handles_method m' (req_method req)
           \<and> matchLayer p' (path req) \<noteq> None))
   \<and> (\<not> (handles_method ''get'' (req_method req) \<and> matchLayer ''/metrics'' (path req) \<noteq> None)
        \<and> express_json env req = Inr b \<and> express_static env (req\<lparr>body := b\<rparr>) = Some res \<longrightarrow>
        app_handle env req st = ([Ran Metrics, Ran Json, Ran Static], Sent res, metricsMiddleware req st))"
proof (intro conjI impI)
  show "routes app =
     [(''get'', ''/metrics'', metricsHandler), (''get'', ''/api/greeting'', getGreeting),
      (''get'', ''/api/items'', getItems), (''post'', ''/api/items'', addItem),
      (''put'', ''/api/items/:id'', updateItem), (''delete'', ''/api/items/:id'', deleteItem)]"
    by (rule routes_app)
  show "middlewares app = [Metrics, Json, Static]"
    by (rule middlewares_app)
next
  assume "handles_method ''get'' (req_method req) \<and> matchLayer ''/metrics'' (path req) \<noteq> None"
  then show "app_handle env req st =
          ([Ran Metrics, Dispatched metricsHandler],
           Sent (serveMetrics env (req\<lparr>params := []\<rparr>) (metricsMiddleware req st)),
           metricsMiddleware req st)"
    by (simp add: app_handle_metrics_route)
next
  assume "(m, p, h) \<in> set (routes app) \<and> h \<noteq> metricsHandler
        \<and> handles_method m (req_method req) \<and> matchLayer p (path req) = Some ps
        \<and> decode_params env ps = Some ps'
        \<and> express_json env req = Inr b \<and> express_static env (req\<lparr>body := b\<rparr>) = None"
  then have hyps: "(m, p, h) \<in> set (routes app)" "h \<noteq> metricsHandler"
      "handles_method m (req_method req)" "matchLayer p (path req) = Some ps"
      "decode_params env ps = Some ps'" "express_json env req = Inr b"
      "express_static env (req\<lparr>body := b\<rparr>) = None"
    by simp_all
  show "app_handle env req st =
          ([Ran Metrics, Ran Json, Ran Static, Dispatched h],
           run_handler env h (req\<lparr>body := b, params := ps'\<rparr>) (metricsMiddleware req st))"
    by (rule app_handle_api_route [OF hyps])
next
  assume "Dispatched h' \<in> set (stages_of (app_handle env req st))"
  then show "\<exists>m' p'. (m', p', h') \<in> set (routes app) \<and> handles_method m' (req_method req)
           \<and> matchLayer p' (path req) \<noteq> None"
    unfolding stages_of_def app_handle_def by (rule dispatched_registered)
next
  assume "\<not> (handles_method ''get'' (req_method req) \<and> matchLayer ''/metrics'' (path req) \<noteq> None)
        \<and> express_json env req = Inr b \<and> express_static env (req\<lparr>body := b\<rparr>) = Some res"
  then have hyps: "\<not> (handles_method ''get'' (req_method req) \<and> matchLayer ''/metrics'' (path req) \<noteq> None)"
      "express_json env req = Inr b" "express_static env (req\<lparr>body := b\<rparr>) = Some res"
    by simp_all
  show "app_handle env req st = ([Ran Metrics, Ran Json, Ran Static], Sent res, metricsMiddleware req st)"
    by (rule app_handle_static [OF hyps])
qed

theorem http_surface_witness:
  "app_handle example_env (put_request ''/api/items/7'') (start ()) =
     ([Ran Metrics, Ran Json, Ran Static, Dispatched updateItem],
      Sent \<lparr>statusCode = 200, headers = [], data = ''ok''\<rparr>,
      metricsMiddleware (put_request ''/api/items/7'') (start ()))
   \<and> (\<exists>m' p'. (m', p', updateItem) \<in> set (routes app) \<and> handles_method m' ''PUT''
         \<and> matchLayer p' ''/api/items/7'' \<noteq> None)
   \<and> stages_of (app_handle example_env (get_request ''/metrics'') (start ()))
       = [Ran Metrics, Dispatched metricsHandler]
   \<and> app_handle static_env (get_request ''/index.html'') (start ()) =
       ([Ran Metrics, Ran Json, Ran Static],
        Sent \<lparr>statusCode = 200, headers = [], data = ''<html>''\<rparr>, start ())"
proof -
  have "app_handle example_env (put_request ''/api/items/7'') (start ()) =
     ([Ran Metrics, Ran Json, Ran Static, Dispatched updateItem],
      run_handler example_env updateItem
        ((put_request ''/api/items/7'')\<lparr>body := ''{}'', params := [(''id'', ''7'')]\<rparr>)
        (metricsMiddleware (put_request ''/api/items/7'') (start ())))"
    by (rule http_surface [THEN conjunct2, THEN conjunct2, THEN conjunct2, THEN conjunct1,
          rule_format, where m = "''put''" and p = "''/api/items/:id''"
          and ps = "[(''id'', ''7'')]"])
       (simp add: routes_app put_request_def put_item_matches handles_put_PUT example_env_def)
  then have 1: "app_handle example_env (put_request ''/api/items/7'') (start ()) =
     ([Ran Metrics, Ran Json, Ran Static, Dispatched updateItem],
      Sent \<lparr>statusCode = 200, headers = [], data = ''ok''\<rparr>,
      metricsMiddleware (put_request ''/api/items/7'') (start ()))"
    by (simp add: example_env_def)
  then have "Dispatched updateItem
      \<in> set (stages_of (app_handle example_env (put_request ''/api/items/7'') (start ())))"
    by (simp add: stages_of_def)
  then have "\<exists>m' p'. (m', p', updateItem) \<in> set (routes app)
         \<and> handles_method m' (req_method (put_request ''/api/items/7''))
         \<and> matchLayer p' (path (put_request ''/api/items/7'')) \<noteq> None"
    by (rule http_surface [THEN conjunct2, THEN conjunct2, THEN conjunct2, THEN conjunct2,
          THEN conjunct1, rule_format])
  then have 2: "\<exists>m' p'. (m', p', updateItem) \<in> set (routes app) \<and> handles_method m' ''PUT''
         \<and> matchLayer p' ''/api/items/7'' \<noteq> None"
    by (simp add: put_request_def)
  have "app_handle example_env (get_request ''/metrics'') (start ()) =
          ([Ran Metrics, Dispatched metricsHandler],
           Sent (serveMetrics example_env ((get_request ''/metrics'')\<lparr>params := []\<rparr>)
                  (metricsMiddleware (get_request ''/metrics'') (start ()))),
           metricsMiddleware (get_request ''/metrics'') (start ()))"
    by (rule http_surface [THEN conjunct2, THEN conjunct2, THEN conjunct1, rule_format])
       (simp add: get_request_def handles_get_GET matchLayer_def strip_slash_def startsWith_def
          toLowerCase_def)
  then have 3: "stages_of (app_handle example_env (get_request ''/metrics'') (start ()))
       = [Ran Metrics, Dispatched metricsHandler]"
    by (simp add: stages_of_def)
  have "app_handle static_env (get_request ''/index.html'') (start ()) =
       ([Ran Metrics, Ran Json, Ran Static],
        Sent \<lparr>statusCode = 200, headers = [], data = ''<html>''\<rparr>,
        metricsMiddleware (get_request ''/index.html'') (start ()))"
    by (rule http_surface [THEN conjunct2, THEN conjunct2, THEN conjunct2, THEN conjunct2,
          THEN conjunct2, rule_format, where b = "[]"])
       (simp add: static_env_def example_env_def get_request_def matchLayer_def strip_slash_def
          startsWith_def toLowerCase_def)
  then have 4: "app_handle static_env (get_request ''/index.html'') (start ()) =
       ([Ran Metrics, Ran Json, Ran Static],
        Sent \<lparr>statusCode = 200, headers = [], data = ''<html>''\<rparr>, start ())"
    by (simp add: get_request_def metricsMiddleware_def startsWith_def)
  from 1 2 3 4 show ?thesis by blast
qed



text \<open>
  Claim C9. The test is \<^verbatim>\<open>startsWith\<close> on the path and nothing else. Every request
  whose path starts with \<^verbatim>\<open>/api\<close> is counted once under its method; this includes a
  request to \<^verbatim>\<open>/apifoo\<close> and a PATCH to \<^verbatim>\<open>/api/items\<close>, for which no handler
  runs. The counter after a request is the same in every environment, whatever the
  handlers, the body parser and the static middleware do.
\<close>

theorem counting_is_a_literal_prefix_test:
  "(startsWith (path req) ''/api'' \<longrightarrow>
      count_of (counter (state_of (app_handle env req st))) (req_method req)
        = count_of (counter st) (req_method req) + 1)
   \<and> (path req = ''/apifoo'' \<or> (req_method req = ''PATCH'' \<and> path req = ''/api/items'') \<longrightarrow>
        startsWith (path req) ''/api''
        \<and> (\<forall>h. Dispatched h \<notin> set (stages_of (app_handle env req st))))
   \<and> (counter st' = counter st \<longrightarrow>
        counter (state_of (app_handle env' req st')) = counter (state_of (app_handle env req st)))"
proof (intro conjI impI allI)
  assume "startsWith (path req) ''/api''"
  then show "count_of (counter (state_of (app_handle env req st))) (req_method req)
        = count_of (counter st) (req_method req) + 1"
    by (simp add: state_of_def app_handle_counter counter_metricsMiddleware count_of_inc)
next
  assume "path req = ''/apifoo'' \<or> (req_method req = ''PATCH'' \<and> path req = ''/api/items'')"
  then show "startsWith (path req) ''/api''"
    by (auto simp: startsWith_def)
next
  fix h
  assume c: "path req = ''/apifoo'' \<or> (req_method req = ''PATCH'' \<and> path req = ''/api/items'')"
  show "Dispatched h \<notin> set (stages_of (app_handle env req st))"
  proof
    assume "Dispatched h \<in> set (stages_of (app_handle env req st))"
    then obtain m p where r: "(m, p, h) \<in> set (routes app)"
      and hm: "handles_method m (req_method req)" and ml: "matchLayer p (path req) \<noteq> None"
      unfolding stages_of_def app_handle_def using dispatched_registered by blast
    from c show False
    proof
      assume "path req = ''/apifoo''"
      then show False
        using r ml
        by (auto simp: routes_app matchLayer_def strip_slash_def startsWith_def toLowerCase_def)
    next
      assume "req_method req = ''PATCH'' \<and> path req = ''/api/items''"
      then show False
        using r hm by (auto simp: routes_app handles_method_def toLowerCase_def)
    qed
  qed
next
  assume "counter st' = counter st"
  then show "counter (state_of (app_handle env' req st')) = counter (state_of (app_handle env req st))"
    by (simp add: state_of_def app_handle_counter counter_metricsMiddleware)
qed

theorem counting_is_a_literal_prefix_test_witness:
  "startsWith (path (patch_request ''/api/items'')) ''/api''
   \<and> count_of (counter (state_of (app_handle example_env (patch_request ''/api/items'') (start ()))))
         ''PATCH'' = 1
   \<and> (\<forall>h. Dispatched h
          \<notin> set (stages_of (app_handle example_env (patch_request ''/api/items'') (start ()))))
   \<and> count_of (counter (state_of (app_handle example_env (get_request ''/apifoo'') (start ()))))
         ''GET'' = 1
   \<and> (\<forall>h. Dispatched h
          \<notin> set (stages_of (app_handle example_env (get_request ''/apifoo'') (start ()))))
   \<and> counter (state_of (app_handle static_env (patch_request ''/api/items'') (start ())))
       = counter (state_of (app_handle example_env (patch_request ''/api/items'') (start ())))"
proof -
  have zero: "count_of (counter (start ())) m = 0" for m
    by (simp add: start_def count_of_def)
  note patch = counting_is_a_literal_prefix_test [where req = "patch_request ''/api/items''"
      and env = example_env and env' = static_env and st = "start ()" and st' = "start ()"]
  note foo = counting_is_a_literal_prefix_test [where req = "get_request ''/apifoo''"
      and env = example_env and env' = static_env and st = "start ()" and st' = "start ()"]
  have a: "count_of (counter (state_of (app_handle example_env (get_request ''/apifoo'') (start ()))))
         ''GET'' = 1
   \<and> (\<forall>h. Dispatched h
          \<notin> set (stages_of (app_handle example_env (get_request ''/apifoo'') (start ()))))"
    using foo by (simp add: get_request_def startsWith_def zero)
  have b: "startsWith (path (patch_request ''/api/items'')) ''/api''
   \<and> count_of (counter (state_of (app_handle example_env (patch_request ''/api/items'') (start ()))))
         ''PATCH'' = 1
   \<and> (\<forall>h. Dispatched h
          \<notin> set (stages_of (app_handle example_env (patch_request ''/api/items'') (start ()))))
   \<and> counter (state_of (app_handle static_env (patch_request ''/api/items'') (start ())))
       = counter (state_of (app_handle example_env (patch_request ''/api/items'') (start ())))"
    using patch by (simp add: patch_request_def startsWith_def zero)
  from a b show ?thesis by blast
qed

text \<open>
  The converse direction of the same fact: Express matches routes without regard to
  letter case, the prefix test does not. A GET request to \<^verbatim>\<open>/API/items\<close> is served
  by the items handler and is not counted.
\<close>

lemma served_without_being_counted:
  "stages_of (app_handle example_env (get_request ''/API/items'') (start ()))
     = [Ran Metrics, Ran Json, Ran Static, Dispatched getItems]
   \<and> counter (state_of (app_handle example_env (get_request ''/API/items'') (start ()))) = Map.empty"
proof -
  have m: "matchLayer ''/api/items'' ''/API/items'' = Some []"
    by (simp add: matchLayer_def strip_slash_def startsWith_def toLowerCase_def)
  have r: "(''get'', ''/api/items'', getItems) \<in> set (routes app)"
    by (simp add: routes_app)
  have "app_handle example_env (get_request ''/API/items'') (start ()) =
     ([Ran Metrics, Ran Json, Ran Static, Dispatched getItems],
      run_handler example_env getItems ((get_request ''/API/items'')\<lparr>body := [], params := []\<rparr>)
        (metricsMiddleware (get_request ''/API/items'') (start ())))"
    by (rule app_handle_api_route [OF r, where ps = "[]" and ps' = "[]" and b = "[]"])
       (simp_all add: get_request_def handles_get_GET m example_env_def)
  then have "stages_of (app_handle example_env (get_request ''/API/items'') (start ()))
     = [Ran Metrics, Ran Json, Ran Static, Dispatched getItems]"
    by (simp add: stages_of_def)
  moreover have "counter (state_of (app_handle example_env (get_request ''/API/items'') (start ())))
     = Map.empty"
    by (simp add: state_of_def app_handle_counter counter_metricsMiddleware get_request_def
        startsWith_def start_def)
  ultimately show ?thesis by simp
qed

end
